theory Spec2Isabelle
  imports Main
begin

section \<open>The update scheduler (next-tick.js: nextTick, flushCallbacks)\<close>

text \<open>
  A user callback is a function whose body, as far as the scheduler can tell, does two
  things: it calls \<open>nextTick\<close> again (with or without a callback), and it may throw.
  The body is a list of such statements run in order; a \<open>Throw\<close> abandons the rest.
\<close>

datatype stmt = NextTick "callback option" | Throw string
and callback = Callback nat "stmt list"

fun cb_name :: "callback \<Rightarrow> nat" where
  "cb_name (Callback n b) = n"

fun cb_body :: "callback \<Rightarrow> stmt list" where
  "cb_body (Callback n b) = b"

text \<open>
  The arrow function pushed by \<open>nextTick\<close>: it closes over \<open>cb\<close> and over
  \<open>_resolve\<close>, which is assigned only when \<open>cb\<close> is absent and \<open>Promise\<close> exists.
\<close>

datatype wrapper = Wrapper "callback option" bool

record sched =
  callbacks :: "wrapper list"
  pending :: bool
  has_Promise :: bool
  timerFunc_calls :: nat
  invoked :: "nat list"
  handled :: "(string \<times> string) list"
  resolved :: nat

text \<open>
  \<open>timerFunc\<close> hands \<open>flushCallbacks\<close> to the host (Promise.then, MutationObserver,
  setImmediate or setTimeout); whichever branch was selected at load time, one call asks
  for one flush. The model counts the calls.
\<close>

definition timerFunc :: "sched \<Rightarrow> sched" where
  "timerFunc s = s\<lparr>timerFunc_calls := timerFunc_calls s + 1\<rparr>"

definition nextTick :: "callback option \<Rightarrow> sched \<Rightarrow> sched" where
  "nextTick cb s =
     (let s1 = s\<lparr>callbacks := callbacks s @ [Wrapper cb (cb = None \<and> has_Promise s)]\<rparr>
      in if \<not> pending s1 then timerFunc (s1\<lparr>pending := True\<rparr>) else s1)"

text \<open>
  Modelled from the spec: \<open>handleError\<close> lives in ./error, which is not among the
  sources. The spec says a thrown error is "caught and reported, not propagated"; the
  model appends the error and the phase string to a report log and returns normally.
\<close>

definition handleError :: "string \<Rightarrow> string \<Rightarrow> sched \<Rightarrow> sched" where
  "handleError e info s = s\<lparr>handled := handled s @ [(e, info)]\<rparr>"

text \<open>Running a function body: the result is the state and the exception, if one escaped.\<close>

fun run_body :: "stmt list \<Rightarrow> sched \<Rightarrow> sched \<times> string option" where
  "run_body [] s = (s, None)"
| "run_body (NextTick c # rest) s = run_body rest (nextTick c s)"
| "run_body (Throw e # rest) s = (s, Some e)"

definition call_cb :: "callback \<Rightarrow> sched \<Rightarrow> sched \<times> string option" where
  "call_cb cb s = run_body (cb_body cb) (s\<lparr>invoked := invoked s @ [cb_name cb]\<rparr>)"

fun call_wrapper :: "wrapper \<Rightarrow> sched \<Rightarrow> sched \<times> string option" where
  "call_wrapper (Wrapper (Some cb) r) s =
     (case call_cb cb s of
        (s', None) \<Rightarrow> (s', None)
      | (s', Some e) \<Rightarrow> (handleError e ''nextTick'' s', None))"
| "call_wrapper (Wrapper None r) s =
     (if r then (s\<lparr>resolved := resolved s + 1\<rparr>, None) else (s, None))"

text \<open>The \<open>for\<close> loop of \<open>flushCallbacks\<close>: an exception leaving a copy would end it.\<close>

fun run_copies :: "wrapper list \<Rightarrow> sched \<Rightarrow> sched \<times> string option" where
  "run_copies [] s = (s, None)"
| "run_copies (w # ws) s =
     (case call_wrapper w s of
        (s', Some e) \<Rightarrow> (s', Some e)
      | (s', None) \<Rightarrow> run_copies ws s')"

definition flushCallbacks :: "sched \<Rightarrow> sched \<times> string option" where
  "flushCallbacks s =
     (let s1 = s\<lparr>pending := False\<rparr>;
          copies = callbacks s1;
          s2 = s1\<lparr>callbacks := []\<rparr>
      in run_copies copies s2)"

text \<open>What a body enqueues before it returns or throws, and what it throws.\<close>

fun enqueued_by :: "stmt list \<Rightarrow> callback option list" where
  "enqueued_by [] = []"
| "enqueued_by (NextTick c # rest) = c # enqueued_by rest"
| "enqueued_by (Throw e # rest) = []"

fun thrown_by :: "stmt list \<Rightarrow> string option" where
  "thrown_by [] = None"
| "thrown_by (NextTick c # rest) = thrown_by rest"
| "thrown_by (Throw e # rest) = Some e"

fun wrapper_name :: "wrapper \<Rightarrow> nat list" where
  "wrapper_name (Wrapper (Some cb) r) = [cb_name cb]"
| "wrapper_name (Wrapper None r) = []"

fun wrapper_enqueues :: "wrapper \<Rightarrow> callback option list" where
  "wrapper_enqueues (Wrapper (Some cb) r) = enqueued_by (cb_body cb)"
| "wrapper_enqueues (Wrapper None r) = []"

fun wrapper_throws :: "wrapper \<Rightarrow> string list" where
  "wrapper_throws (Wrapper (Some cb) r) =
     (case thrown_by (cb_body cb) of None \<Rightarrow> [] | Some e \<Rightarrow> [e])"
| "wrapper_throws (Wrapper None r) = []"

text \<open>The wrapper that \<open>nextTick c\<close> pushes in state \<open>s\<close>, and the names a queue invokes.\<close>

definition wrapper_of :: "sched \<Rightarrow> callback option \<Rightarrow> wrapper" where
  "wrapper_of s c = Wrapper c (c = None \<and> has_Promise s)"

fun names_of :: "callback option list \<Rightarrow> nat list" where
  "names_of [] = []"
| "names_of (None # cs) = names_of cs"
| "names_of (Some cb # cs) = cb_name cb # names_of cs"

text \<open>A concrete batch: \<open>B\<close> enqueues \<open>D\<close> and then throws.\<close>

definition cbA :: callback where "cbA = Callback 1 []"
definition cbD :: callback where "cbD = Callback 4 []"
definition cbB :: callback where "cbB = Callback 2 [NextTick (Some cbD), Throw ''boom'']"
definition cbC :: callback where "cbC = Callback 3 []"
definition sched0 :: sched where
  "sched0 = \<lparr>callbacks = [], pending = False, has_Promise = True, timerFunc_calls = 0,
     invoked = [], handled = [], resolved = 0\<rparr>"

section \<open>Values, objects and the runtime state of the observer\<close>

text \<open>
  JavaScript values as far as the observer looks at them. Numbers are integers or
  \<open>NaN\<close>: the only number whose strict comparison with itself is false. \<open>Ref a\<close> is a
  reference to the object stored at address \<open>a\<close> of the heap; \<open>Func\<close> is a built-in
  function, known by its name. Property keys are array
  indices (\<open>Idx\<close>, the canonical numeric strings) or other names.
\<close>

datatype jsnum = NaN | Num int

datatype val = Undefined | Null | Bool bool | Number jsnum | Str string | Func string | Ref nat

datatype key = Idx nat | Name string

datatype error = TypeError | RangeError

text \<open>
  Functions of the model that may recurse without bound take fuel. \<open>OutOfFuel\<close> means
  that the recursion went deeper than the fuel given; \<open>Raised\<close> is a JavaScript
  exception leaving the function; \<open>Done\<close> is a normal return.
\<close>

datatype 'a result = OutOfFuel | Raised error | Done 'a

fun foldR :: "('a \<Rightarrow> 's \<Rightarrow> 's result) \<Rightarrow> 'a list \<Rightarrow> 's \<Rightarrow> 's result" where
  "foldR f [] s = Done s"
| "foldR f (x # xs) s =
     (case f x s of
        Done s' \<Rightarrow> foldR f xs s'
      | Raised e \<Rightarrow> Raised e
      | OutOfFuel \<Rightarrow> OutOfFuel)"

definition bindR :: "'a result \<Rightarrow> ('a \<Rightarrow> 'b result) \<Rightarrow> 'b result" where
  "bindR r f = (case r of Done x \<Rightarrow> f x | Raised e \<Rightarrow> Raised e | OutOfFuel \<Rightarrow> OutOfFuel)"

text \<open>
  Strict equality \<open>===\<close>: references are equal when they are the same address, \<open>NaN\<close>
  is equal to nothing.
\<close>

definition strict_eq :: "val \<Rightarrow> val \<Rightarrow> bool" where
  "strict_eq a b = (a = b \<and> a \<noteq> Number NaN)"

fun truthy :: "val \<Rightarrow> bool" where
  "truthy Undefined = False"
| "truthy Null = False"
| "truthy (Bool b) = b"
| "truthy (Number NaN) = False"
| "truthy (Number (Num i)) = (i \<noteq> 0)"
| "truthy (Str s) = (s \<noteq> [])"
| "truthy (Func f) = True"
| "truthy (Ref a) = True"

text \<open>
  A property is a data property or an accessor pair. The accessor functions are either
  the user's own (modelled as reading and writing a cell of \<open>cells\<close>) or the closures
  \<open>reactiveGetter\<close> and \<open>reactiveSetter\<close> created by one call of \<open>defineReactive\<close>; the
  variables such a pair closes over are one entry of \<open>bindings\<close>.
\<close>

datatype getter = UserGetter nat | ReactiveGetter nat

datatype setter = UserSetter nat | ReactiveSetter nat

datatype slot = Data val | Accessor "getter option" "setter option"

record property =
  p_slot :: slot
  enumerable :: bool
  configurable :: bool

record binding =
  b_obj :: nat
  b_dep :: nat
  b_val :: val
  b_getter :: "getter option"
  b_setter :: "setter option"
  b_childOb :: "nat option"
  b_shallow :: bool
  b_customSetter :: bool

text \<open>
  \<open>kind\<close> is what the type tests of the source report: \<open>Array.isArray\<close> for \<open>KArray\<close>,
  \<open>isPlainObject\<close> (the tag \<open>[object Object]\<close>) for \<open>KPlain\<close>, \<open>instanceof VNode\<close> for
  \<open>KVNode\<close>; \<open>KOther\<close> is any other object (a Date, a Map). (\<open>isPlainObject\<close> and
  \<open>VNode\<close> are imported from files that are not among the sources; the spec has them as
  keyed mappings and as the values produced by the runtime itself.) The prototype of an object is
  one of the built-in ones, \<open>arrayMethods\<close> of array.js, another heap object or null.
\<close>

datatype kind = KArray | KPlain | KVNode | KOther

datatype proto = ProtoObject | ProtoArray | ProtoArrayMethods | ProtoRef nat | ProtoNull

text \<open>
  An object: the elements (of an array; a hole reads as \<open>undefined\<close> and is stored so),
  the own properties other than elements in creation order, the own \<open>__ob__\<close> property
  (the number of the Observer it holds), and whether the seven mutators of
  \<open>arrayMethods\<close> were defined on the object itself (\<open>copyAugment\<close>).
\<close>

text \<open>
  The model keeps to what the observer reads and writes. An \<open>__ob__\<close> property holds an
  Observer instance, as every write of it in the sources does, and is the field \<open>ob\<close>;
  \<open>_isVue\<close> is the own flag of a runtime instance; a user's accessor pair reads and
  writes one cell; a reference that points outside the heap counts as no object.
\<close>

record obj =
  kind :: kind
  elems :: "val list"
  props :: "(key \<times> property) list"
  ob :: "nat option"
  proto :: proto
  own_mutators :: bool
  extensible :: bool
  frozen :: bool
  isVue :: bool

record observer =
  ob_value :: nat
  ob_dep :: nat
  vmCount :: nat

text \<open>
  The state: heap, closures, Observer instances, the Dep counter and subscriptions, the
  module variables \<open>shouldObserve\<close> and \<open>seenObjects\<close>, the environment
  (\<open>isServerRendering()\<close>, \<open>process.env.NODE_ENV\<close>, \<open>hasProto\<close>) and two logs: the
  \<open>notify()\<close> calls, each with the Dep and the subscribers it reached, and the warnings.
\<close>

record state =
  heap :: "obj list"
  bindings :: "binding list"
  cells :: "val list"
  observers :: "observer list"
  uid :: nat
  regs :: "(nat \<times> nat) list"
  Dep_target :: "nat option"
  shouldObserve :: bool
  seenObjects :: "nat list"
  serverRendering :: bool
  production :: bool
  hasProto :: bool
  notified :: "(nat \<times> nat list) list"
  warnings :: "string list"


subsection \<open>Heap access\<close>

definition obj_at :: "state \<Rightarrow> nat \<Rightarrow> obj option" where
  "obj_at s a = (if a < length (heap s) then Some (heap s ! a) else None)"

definition upd_obj :: "nat \<Rightarrow> (obj \<Rightarrow> obj) \<Rightarrow> state \<Rightarrow> state" where
  "upd_obj a f s = (if a < length (heap s) then s\<lparr>heap := (heap s)[a := f (heap s ! a)]\<rparr> else s)"

text \<open>
  Modelled from the spec: \<open>isObject\<close> lives in util, which is not among the sources. It
  tells containers from the rest: the value is not null and of type object.
\<close>

definition isObject :: "state \<Rightarrow> val \<Rightarrow> bool" where
  "isObject s v = (case v of Ref a \<Rightarrow> a < length (heap s) | _ \<Rightarrow> False)"

definition isArray :: "state \<Rightarrow> val \<Rightarrow> bool" where
  "isArray s v = (case v of Ref a \<Rightarrow> (case obj_at s a of Some x \<Rightarrow> kind x = KArray | None \<Rightarrow> False)
                  | _ \<Rightarrow> False)"

definition methodsToPatch :: "string list" where
  "methodsToPatch = [''push'', ''pop'', ''shift'', ''unshift'', ''splice'', ''sort'', ''reverse'']"

text \<open>The own property names of \<open>Object.prototype\<close> and of \<open>Array.prototype\<close>.\<close>

definition object_prototype_keys :: "string list" where
  "object_prototype_keys =
     [''constructor'', ''__defineGetter__'', ''__defineSetter__'', ''hasOwnProperty'',
      ''__lookupGetter__'', ''__lookupSetter__'', ''isPrototypeOf'', ''propertyIsEnumerable'',
      ''toString'', ''valueOf'', ''__proto__'', ''toLocaleString'']"

definition array_prototype_keys :: "string list" where
  "array_prototype_keys =
     [''length'', ''constructor'', ''concat'', ''copyWithin'', ''fill'', ''find'', ''findIndex'',
      ''lastIndexOf'', ''pop'', ''push'', ''reverse'', ''shift'', ''unshift'', ''slice'', ''sort'',
      ''splice'', ''includes'', ''indexOf'', ''join'', ''keys'', ''entries'', ''values'',
      ''forEach'', ''filter'', ''flat'', ''flatMap'', ''map'', ''every'', ''some'', ''reduce'',
      ''reduceRight'', ''toLocaleString'', ''toString'']"

fun in_Object_prototype :: "key \<Rightarrow> bool" where
  "in_Object_prototype (Idx i) = False"
| "in_Object_prototype (Name n) = (n \<in> set object_prototype_keys)"

fun in_Array_prototype :: "key \<Rightarrow> bool" where
  "in_Array_prototype (Idx i) = False"
| "in_Array_prototype (Name n) = (n \<in> set array_prototype_keys \<or> n \<in> set object_prototype_keys)"

text \<open>
  Modelled from the spec: \<open>hasOwn\<close> lives in util, which is not among the sources. It is
  the test for an own property: own elements, own properties, \<open>length\<close> of an array,
  \<open>__ob__\<close> (the hidden marker slot), the mutators defined on the array itself.
\<close>

fun hasOwn :: "obj \<Rightarrow> key \<Rightarrow> bool" where
  "hasOwn x (Idx i) =
     (if kind x = KArray then i < length (elems x) else map_of (props x) (Idx i) \<noteq> None)"
| "hasOwn x (Name n) =
     (map_of (props x) (Name n) \<noteq> None
      \<or> (n = ''__ob__'' \<and> ob x \<noteq> None)
      \<or> (n = ''length'' \<and> kind x = KArray)
      \<or> (own_mutators x \<and> n \<in> set methodsToPatch))"

text \<open>
  The operator \<open>in\<close>: the key is an own property of the object or of an object on its
  prototype chain. A chain has no cycle, so it is no longer than the heap; the walk is
  bounded by that.
\<close>

fun in_chain :: "nat \<Rightarrow> state \<Rightarrow> nat \<Rightarrow> key \<Rightarrow> bool" where
  "in_chain 0 s a k = False"
| "in_chain (Suc n) s a k =
     (case obj_at s a of
        None \<Rightarrow> False
      | Some x \<Rightarrow>
          hasOwn x k \<or>
          (case proto x of
             ProtoNull \<Rightarrow> False
           | ProtoObject \<Rightarrow> in_Object_prototype k
           | ProtoArray \<Rightarrow> in_Array_prototype k
           | ProtoArrayMethods \<Rightarrow> in_Array_prototype k
           | ProtoRef p \<Rightarrow> in_chain n s p k))"

definition key_in :: "state \<Rightarrow> key \<Rightarrow> nat \<Rightarrow> bool" where
  "key_in s k a = in_chain (length (heap s)) s a k"

text \<open>Reading \<open>x.__ob__\<close>: the own property, else the one inherited along the chain.\<close>

fun ob_chain :: "nat \<Rightarrow> state \<Rightarrow> nat \<Rightarrow> nat option" where
  "ob_chain 0 s a = None"
| "ob_chain (Suc n) s a =
     (case obj_at s a of
        None \<Rightarrow> None
      | Some x \<Rightarrow>
          (case ob x of
             Some k \<Rightarrow> Some k
           | None \<Rightarrow> (case proto x of ProtoRef p \<Rightarrow> ob_chain n s p | _ \<Rightarrow> None)))"

definition get_ob :: "state \<Rightarrow> val \<Rightarrow> nat option" where
  "get_ob s v = (case v of Ref a \<Rightarrow> ob_chain (length (heap s)) s a | _ \<Rightarrow> None)"

subsection \<open>Dependency sets\<close>

text \<open>
  Modelled from the spec: the class \<open>Dep\<close> lives in ./dep, which is not among the sources.
  The spec's data model: a Dependency Set is an insertion-ordered, duplicate-free
  collection of subscribers; \<open>depend()\<close>, called while a subscriber is active, adds that
  subscriber idempotently; \<open>notify()\<close> invokes each subscriber of a snapshot. A new
  \<open>Dep\<close> takes the next \<open>uid\<close>. The subscriptions are the pairs \<open>(dep, subscriber)\<close> of
  \<open>regs\<close>; what a notified subscriber does belongs to the consumer, so \<open>notify\<close> logs the
  Dep and the subscribers it reaches.
\<close>

definition new_Dep :: "state \<Rightarrow> nat \<times> state" where
  "new_Dep s = (uid s, s\<lparr>uid := uid s + 1\<rparr>)"

definition subs :: "state \<Rightarrow> nat \<Rightarrow> nat list" where
  "subs s d = map snd (filter (\<lambda>r. fst r = d) (regs s))"

definition depend :: "nat \<Rightarrow> state \<Rightarrow> state" where
  "depend d s =
     (case Dep_target s of
        None \<Rightarrow> s
      | Some w \<Rightarrow> if (d, w) \<in> set (regs s) then s else s\<lparr>regs := regs s @ [(d, w)]\<rparr>)"

definition notify :: "nat \<Rightarrow> state \<Rightarrow> state" where
  "notify d s = s\<lparr>notified := notified s @ [(d, subs s d)]\<rparr>"

subsection \<open>Reading properties\<close>

definition cell :: "state \<Rightarrow> nat \<Rightarrow> val" where
  "cell s c = (if c < length (cells s) then cells s ! c else Undefined)"

definition binding_at :: "state \<Rightarrow> nat \<Rightarrow> binding option" where
  "binding_at s b = (if b < length (bindings s) then Some (bindings s ! b) else None)"

definition observer_at :: "state \<Rightarrow> nat \<Rightarrow> observer option" where
  "observer_at s k = (if k < length (observers s) then Some (observers s ! k) else None)"

text \<open>\<open>ob.dep.depend()\<close> and \<open>ob.dep.notify()\<close> for the Observer numbered \<open>k\<close>.\<close>

definition ob_depend :: "nat \<Rightarrow> state \<Rightarrow> state" where
  "ob_depend k s = (case observer_at s k of Some b \<Rightarrow> depend (ob_dep b) s | None \<Rightarrow> s)"

definition ob_notify :: "nat \<Rightarrow> state \<Rightarrow> state" where
  "ob_notify k s = (case observer_at s k of Some b \<Rightarrow> notify (ob_dep b) s | None \<Rightarrow> s)"

definition elems_of :: "state \<Rightarrow> val \<Rightarrow> val list" where
  "elems_of s v =
     (case v of Ref a \<Rightarrow> (case obj_at s a of Some x \<Rightarrow> elems x | None \<Rightarrow> []) | _ \<Rightarrow> [])"

text \<open>
  \<open>dependArray(value)\<close> (index.js): for every element \<open>e\<close>,
  \<open>e && e.__ob__ && e.__ob__.dep.depend()\<close>, then the recursion into \<open>e\<close> when it is an
  array. Nothing in it remembers the arrays already entered.
\<close>

fun dependArray :: "nat \<Rightarrow> val \<Rightarrow> state \<Rightarrow> state result" where
  "dependArray n v s =
     foldR (\<lambda>e s.
        let s1 = (if truthy e then (case get_ob s e of Some k \<Rightarrow> ob_depend k s | None \<Rightarrow> s) else s)
        in if isArray s1 e
           then (case n of 0 \<Rightarrow> OutOfFuel | Suc m \<Rightarrow> dependArray m e s1)
           else Done s1)
       (elems_of s v) s"

text \<open>
  \<open>reactiveGetter\<close>, the getter closure of \<open>defineReactive\<close>, for the binding numbered
  \<open>b\<close>: the value comes from the getter that was there before, if any, else from \<open>val\<close>;
  \<open>collect\<close> is its block under \<open>if (Dep.target)\<close>.
\<close>

definition collect :: "nat \<Rightarrow> binding \<Rightarrow> val \<Rightarrow> state \<Rightarrow> state result" where
  "collect n bd value s =
     (if Dep_target s \<noteq> None then
        (let s1 = depend (b_dep bd) s in
         case b_childOb bd of
           None \<Rightarrow> Done s1
         | Some k \<Rightarrow>
             (let s2 = ob_depend k s1
              in if isArray s2 value then dependArray n value s2 else Done s2))
      else Done s)"

fun reactiveGetter :: "nat \<Rightarrow> nat \<Rightarrow> state \<Rightarrow> (val \<times> state) result" where
  "reactiveGetter n b s =
     (case binding_at s b of
        None \<Rightarrow> Done (Undefined, s)
      | Some bd \<Rightarrow>
          bindR (case b_getter bd of
                   None \<Rightarrow> Done (b_val bd, s)
                 | Some (UserGetter c) \<Rightarrow> Done (cell s c, s)
                 | Some (ReactiveGetter b') \<Rightarrow>
                     (case n of 0 \<Rightarrow> OutOfFuel | Suc m \<Rightarrow> reactiveGetter m b' s))
            (\<lambda>(value, s1). bindR (collect n bd value s1) (\<lambda>s2. Done (value, s2))))"

definition call_getter :: "nat \<Rightarrow> getter \<Rightarrow> state \<Rightarrow> (val \<times> state) result" where
  "call_getter n g s =
     (case g of
        UserGetter c \<Rightarrow> Done (cell s c, s)
      | ReactiveGetter b \<Rightarrow> reactiveGetter n b s)"

text \<open>
  The own property of an object under a key, as \<open>Object.getOwnPropertyDescriptor\<close>
  describes it: elements and \<open>length\<close> of an array, the mutators defined by
  \<open>copyAugment\<close>, and the properties of \<open>props\<close>. (\<open>__ob__\<close> is read through \<open>get_ob\<close>.)
\<close>

fun own_prop :: "obj \<Rightarrow> key \<Rightarrow> property option" where
  "own_prop x (Idx i) =
     (if kind x = KArray
      then (if i < length (elems x)
            then Some \<lparr>p_slot = Data (elems x ! i), enumerable = True, configurable = True\<rparr>
            else None)
      else map_of (props x) (Idx i))"
| "own_prop x (Name n) =
     (case map_of (props x) (Name n) of
        Some p \<Rightarrow> Some p
      | None \<Rightarrow>
          if n = ''length'' \<and> kind x = KArray
          then Some \<lparr>p_slot = Data (Number (Num (int (length (elems x))))),
                     enumerable = False, configurable = False\<rparr>
          else if own_mutators x \<and> n \<in> set methodsToPatch
          then Some \<lparr>p_slot = Data (Func n), enumerable = False, configurable = True\<rparr>
          else None)"

text \<open>The property a key resolves to along the prototype chain, and the object holding it.\<close>

fun builtin_prop :: "proto \<Rightarrow> key \<Rightarrow> property option" where
  "builtin_prop ProtoObject k =
     (case k of Name n \<Rightarrow>
        if in_Object_prototype k
        then Some \<lparr>p_slot = Data (Func n), enumerable = False, configurable = True\<rparr> else None
      | Idx i \<Rightarrow> None)"
| "builtin_prop ProtoArray k =
     (case k of Name n \<Rightarrow>
        if in_Array_prototype k
        then Some \<lparr>p_slot = Data (Func n), enumerable = False, configurable = True\<rparr> else None
      | Idx i \<Rightarrow> None)"
| "builtin_prop ProtoArrayMethods k =
     (case k of Name n \<Rightarrow>
        if in_Array_prototype k
        then Some \<lparr>p_slot = Data (Func n), enumerable = False, configurable = True\<rparr> else None
      | Idx i \<Rightarrow> None)"
| "builtin_prop p k = None"

fun find_prop :: "nat \<Rightarrow> state \<Rightarrow> nat \<Rightarrow> key \<Rightarrow> (nat option \<times> property) option" where
  "find_prop 0 s a k = None"
| "find_prop (Suc n) s a k =
     (case obj_at s a of
        None \<Rightarrow> None
      | Some x \<Rightarrow>
          (case own_prop x k of
             Some p \<Rightarrow> Some (Some a, p)
           | None \<Rightarrow>
               (case proto x of
                  ProtoRef p \<Rightarrow> find_prop n s p k
                | pr \<Rightarrow> (case builtin_prop pr k of Some p \<Rightarrow> Some (None, p) | None \<Rightarrow> None))))"

text \<open>The read \<open>obj[key]\<close>.\<close>

definition get_prop :: "nat \<Rightarrow> state \<Rightarrow> nat \<Rightarrow> key \<Rightarrow> (val \<times> state) result" where
  "get_prop n s a k =
     (case find_prop (length (heap s)) s a k of
        None \<Rightarrow> Done (Undefined, s)
      | Some (w, p) \<Rightarrow>
          (case p_slot p of
             Data v \<Rightarrow> Done (v, s)
           | Accessor None st \<Rightarrow> Done (Undefined, s)
           | Accessor (Some g) st \<Rightarrow> call_getter n g s))"

subsection \<open>Observer, observe and defineReactive (index.js)\<close>

text \<open>
  \<open>Object.keys\<close>: the own enumerable keys, integer keys first in ascending order, then
  the names in creation order.
\<close>

definition object_keys :: "obj \<Rightarrow> key list" where
  "object_keys x =
     (let ks = map fst (filter (\<lambda>kp. enumerable (snd kp)) (props x));
          idx = (if kind x = KArray then [0..<length (elems x)] else [])
                @ sort (concat (map (\<lambda>k. case k of Idx i \<Rightarrow> [i] | Name n \<Rightarrow> []) ks))
      in map Idx idx @ filter (\<lambda>k. case k of Idx i \<Rightarrow> False | Name n \<Rightarrow> True) ks)"

text \<open>
  Modelled from the spec: \<open>def\<close> lives in util, which is not among the sources. With
  \<open>def(value, "__ob__", this)\<close> the Observer becomes the hidden, non-enumerable marker of
  the object, its own \<open>__ob__\<close>.
\<close>

definition def_ob :: "nat \<Rightarrow> nat \<Rightarrow> state \<Rightarrow> state" where
  "def_ob a k s = upd_obj a (\<lambda>x. x\<lparr>ob := Some k\<rparr>) s"

definition protoAugment :: "nat \<Rightarrow> state \<Rightarrow> state" where
  "protoAugment a s = upd_obj a (\<lambda>x. x\<lparr>proto := ProtoArrayMethods\<rparr>) s"

definition copyAugment :: "nat \<Rightarrow> state \<Rightarrow> state" where
  "copyAugment a s = upd_obj a (\<lambda>x. x\<lparr>own_mutators := True\<rparr>) s"

text \<open>
  \<open>Object.defineProperty(obj, key, {enumerable: true, configurable: true, get, set})\<close>:
  an existing property keeps its place, a new one is added last, and adding to an
  object that is not extensible raises. (An accessor under an index of an array has no
  place in \<open>elems\<close>; it is kept in \<open>props\<close>.)
\<close>

fun put_prop :: "key \<Rightarrow> property \<Rightarrow> (key \<times> property) list \<Rightarrow> (key \<times> property) list" where
  "put_prop k p [] = [(k, p)]"
| "put_prop k p ((k', p') # ps) = (if k' = k then (k, p) # ps else (k', p') # put_prop k p ps)"

definition define_accessor :: "nat \<Rightarrow> key \<Rightarrow> getter \<Rightarrow> setter \<Rightarrow> state \<Rightarrow> state result" where
  "define_accessor a k g st s =
     (case obj_at s a of
        None \<Rightarrow> Raised TypeError
      | Some x \<Rightarrow>
          if own_prop x k = None \<and> \<not> extensible x then Raised TypeError
          else Done (upd_obj a (\<lambda>x. x\<lparr>props := put_prop k
                 \<lparr>p_slot = Accessor (Some g) (Some st), enumerable = True, configurable = True\<rparr>
                 (props x)\<rparr>) s))"

text \<open>The descriptor's \<open>get\<close> and \<open>set\<close>, when the property exists and has them.\<close>

definition prop_get :: "property option \<Rightarrow> getter option" where
  "prop_get property =
     (case property of
        Some p \<Rightarrow> (case p_slot p of Accessor g st \<Rightarrow> g | Data v \<Rightarrow> None)
      | None \<Rightarrow> None)"

definition prop_set :: "property option \<Rightarrow> setter option" where
  "prop_set property =
     (case property of
        Some p \<Rightarrow> (case p_slot p of Accessor g st \<Rightarrow> st | Data v \<Rightarrow> None)
      | None \<Rightarrow> None)"

text \<open>
  The end of \<open>defineReactive\<close>: the closure over \<open>dep\<close>, \<open>val\<close>, \<open>getter\<close>, \<open>setter\<close>,
  \<open>childOb\<close>, \<open>shallow\<close> and \<open>customSetter\<close> is created and its two functions are
  installed with \<open>Object.defineProperty\<close>.
\<close>

definition install_binding ::
  "nat \<Rightarrow> key \<Rightarrow> binding \<Rightarrow> state \<Rightarrow> state result" where
  "install_binding a key bd s =
     (let b = length (bindings s);
          s4 = s\<lparr>bindings := bindings s @ [bd]\<rparr>
      in define_accessor a key (ReactiveGetter b) (ReactiveSetter b) s4)"

text \<open>
  The head of the constructor of \<open>Observer\<close>: \<open>this.value = value\<close>,
  \<open>this.dep = new Dep()\<close>, \<open>this.vmCount = 0\<close>, \<open>def(value, "__ob__", this)\<close>; then, for
  an array, the choice between \<open>protoAugment\<close> and \<open>copyAugment\<close>.
\<close>

definition new_Observer_init :: "nat \<Rightarrow> state \<Rightarrow> nat \<times> state" where
  "new_Observer_init a s =
     (let (d, s1) = new_Dep s;
          k = length (observers s1);
          s2 = s1\<lparr>observers := observers s1 @ [\<lparr>ob_value = a, ob_dep = d, vmCount = 0\<rparr>]\<rparr>
      in (k, def_ob a k s2))"

definition augment :: "nat \<Rightarrow> state \<Rightarrow> state" where
  "augment a s = (if hasProto s then protoAugment a s else copyAugment a s)"

text \<open>\<open>ob.vmCount++\<close>.\<close>

definition vmCount_inc :: "nat \<Rightarrow> state \<Rightarrow> state" where
  "vmCount_inc k s =
     (if k < length (observers s)
      then s\<lparr>observers := (observers s)[k := (observers s ! k)\<lparr>vmCount := vmCount (observers s ! k) + 1\<rparr>]\<rparr>
      else s)"

text \<open>
  The second condition of \<open>observe\<close>, under which a new Observer is made:
  \<open>shouldObserve && !isServerRendering() && (Array.isArray(value) || isPlainObject(value))
  && Object.isExtensible(value) && !value._isVue\<close>.
\<close>

definition can_observe :: "obj \<Rightarrow> state \<Rightarrow> bool" where
  "can_observe x s =
     (shouldObserve s \<and> \<not> serverRendering s \<and> (kind x = KArray \<or> kind x = KPlain)
      \<and> extensible x \<and> \<not> isVue x)"

text \<open>
  \<open>observe(value, asRootData)\<close>, the constructor of \<open>Observer\<close> with its methods \<open>walk\<close>
  and \<open>observeArray\<close>, and \<open>defineReactive(obj, key, val, customSetter, shallow)\<close>. Fuel
  is spent where \<open>observe\<close> enters the constructor. \<open>val\<close> absent
  (\<open>arguments.length === 2\<close>) is \<open>None\<close>.
\<close>

function observe :: "nat \<Rightarrow> val \<Rightarrow> bool \<Rightarrow> state \<Rightarrow> (nat option \<times> state) result"
and new_Observer :: "nat \<Rightarrow> nat \<Rightarrow> obj \<Rightarrow> state \<Rightarrow> (nat option \<times> state) result"
and observeArray :: "nat \<Rightarrow> val list \<Rightarrow> state \<Rightarrow> state result"
and walk :: "nat \<Rightarrow> nat \<Rightarrow> key list \<Rightarrow> state \<Rightarrow> state result"
and defineReactive ::
  "nat \<Rightarrow> nat \<Rightarrow> key \<Rightarrow> val option \<Rightarrow> bool \<Rightarrow> bool \<Rightarrow> state \<Rightarrow> state result"
where
  "observe n v asRootData s =
     (case v of
        Ref a \<Rightarrow>
          (case obj_at s a of
             None \<Rightarrow> Done (None, s)
           | Some x \<Rightarrow>
               if kind x = KVNode then Done (None, s)
               else
                 bindR (case ob x of
                          Some k \<Rightarrow> Done (Some k, s)
                        | None \<Rightarrow>
                            if can_observe x s
                            then (case n of 0 \<Rightarrow> OutOfFuel | Suc m \<Rightarrow> new_Observer m a x s)
                            else Done (None, s))
                   (\<lambda>(r, s').
                      Done (r, if asRootData
                               then (case r of Some k \<Rightarrow> vmCount_inc k s' | None \<Rightarrow> s')
                               else s')))
      | _ \<Rightarrow> Done (None, s))"
| "new_Observer n a x s =
     (let (k, s3) = new_Observer_init a s
      in bindR (if kind x = KArray
                then observeArray n (elems x) (augment a s3)
                else walk n a (object_keys x) s3)
           (\<lambda>s5. Done (Some k, s5)))"
| "observeArray n items s =
     foldR (\<lambda>item s. bindR (observe n item False s) (\<lambda>(r, s'). Done s')) items s"
| "walk n a keys s =
     foldR (\<lambda>key s. defineReactive n a key None False False s) keys s"
| "defineReactive n a key val customSetter shallow s =
     (let (d, s1) = new_Dep s;
          property = (case obj_at s1 a of Some x \<Rightarrow> own_prop x key | None \<Rightarrow> None)
      in if (case property of Some p \<Rightarrow> \<not> configurable p | None \<Rightarrow> False) then Done s1
         else
           (let getter = prop_get property;
                setter = prop_set property
            in bindR (if (getter = None \<or> setter \<noteq> None) \<and> val = None
                      then get_prop n s1 a key
                      else Done (case val of Some v \<Rightarrow> v | None \<Rightarrow> Undefined, s1))
                 (\<lambda>(v, s2).
                    bindR (if shallow then Done (None, s2) else observe n v False s2)
                      (\<lambda>(childOb, s3).
                         install_binding a key
                           \<lparr>b_obj = a, b_dep = d, b_val = v, b_getter = getter,
                            b_setter = setter, b_childOb = childOb,
                            b_shallow = shallow, b_customSetter = customSetter\<rparr> s3))))"
  by pat_completeness auto
termination
  by (relation "measure (\<lambda>x. case x of
          Inl (Inl (n, r)) \<Rightarrow> 4 * n
        | Inl (Inr (n, r)) \<Rightarrow> 4 * n + 3
        | Inr (Inl (n, r)) \<Rightarrow> 4 * n + 2
        | Inr (Inr (Inl (n, r))) \<Rightarrow> 4 * n + 2
        | Inr (Inr (Inr (n, r))) \<Rightarrow> 4 * n + 1)") simp_all

subsection \<open>The setter closure and assignment\<close>

text \<open>
  Modelled from the spec: \<open>warn\<close> lives in util, which is not among the sources. It is the
  non-fatal diagnostic channel: a line is added to a log and nothing is thrown. The
  \<open>customSetter\<close> hook of a binding is kept as such a line too.
\<close>

definition warn :: "string \<Rightarrow> state \<Rightarrow> state" where
  "warn msg s = s\<lparr>warnings := warnings s @ [msg]\<rparr>"

definition set_binding :: "nat \<Rightarrow> (binding \<Rightarrow> binding) \<Rightarrow> state \<Rightarrow> state" where
  "set_binding b f s =
     (if b < length (bindings s) then s\<lparr>bindings := (bindings s)[b := f (bindings s ! b)]\<rparr> else s)"

text \<open>
  \<open>reactiveSetter(newVal)\<close> of the binding numbered \<open>b\<close>. The test that ends it early is
  \<open>newVal === value || (newVal !== newVal && value !== value)\<close>.
\<close>

definition same_value :: "val \<Rightarrow> val \<Rightarrow> bool" where
  "same_value newVal value =
     (strict_eq newVal value \<or> (\<not> strict_eq newVal newVal \<and> \<not> strict_eq value value))"

fun reactiveSetter :: "nat \<Rightarrow> nat \<Rightarrow> val \<Rightarrow> state \<Rightarrow> state result" where
  "reactiveSetter n b newVal s =
     (case binding_at s b of
        None \<Rightarrow> Done s
      | Some bd \<Rightarrow>
          bindR (case b_getter bd of
                   Some g \<Rightarrow> call_getter n g s
                 | None \<Rightarrow> Done (b_val bd, s))
            (\<lambda>(value, s1).
               if same_value newVal value then Done s1
               else
                 (let s2 = (if \<not> production s1 \<and> b_customSetter bd
                            then warn ''customSetter'' s1 else s1)
                  in if b_getter bd \<noteq> None \<and> b_setter bd = None then Done s2
                     else
                       bindR (case b_setter bd of
                                Some (UserSetter c) \<Rightarrow> Done (s2\<lparr>cells := (cells s2)[c := newVal]\<rparr>)
                              | Some (ReactiveSetter b') \<Rightarrow>
                                  (case n of
                                     0 \<Rightarrow> OutOfFuel
                                   | Suc m \<Rightarrow> reactiveSetter m b' newVal s2)
                              | None \<Rightarrow> Done (set_binding b (\<lambda>bd. bd\<lparr>b_val := newVal\<rparr>) s2))
                         (\<lambda>s3.
                            bindR (if b_shallow bd then Done (None, s3)
                                   else observe n newVal False s3)
                              (\<lambda>(childOb, s4).
                                 Done (notify (b_dep bd)
                                   (set_binding b (\<lambda>bd. bd\<lparr>b_childOb := childOb\<rparr>) s4)))))))"

definition call_setter :: "nat \<Rightarrow> setter \<Rightarrow> val \<Rightarrow> state \<Rightarrow> state result" where
  "call_setter n st v s =
     (case st of
        UserSetter c \<Rightarrow> Done (s\<lparr>cells := (cells s)[c := v]\<rparr>)
      | ReactiveSetter b \<Rightarrow> reactiveSetter n b v s)"

text \<open>
  \<open>target.length = l\<close> on an array: shorter cuts, longer leaves holes. A frozen array has
  a read-only length, and the module is strict code, so the write raises.
\<close>

definition set_length :: "nat \<Rightarrow> nat \<Rightarrow> state \<Rightarrow> state result" where
  "set_length a l s =
     (case obj_at s a of
        None \<Rightarrow> Raised TypeError
      | Some x \<Rightarrow>
          if frozen x then Raised TypeError
          else Done (upd_obj a (\<lambda>x. x\<lparr>elems := take l (elems x) @ replicate (l - length (elems x)) Undefined\<rparr>) s))"

text \<open>Whether address \<open>a\<close> lies on the prototype chain that starts at \<open>p\<close>.\<close>

fun on_chain :: "nat \<Rightarrow> state \<Rightarrow> nat \<Rightarrow> nat \<Rightarrow> bool" where
  "on_chain 0 s p a = False"
| "on_chain (Suc n) s p a =
     (p = a \<or> (case obj_at s p of
                  Some x \<Rightarrow> (case proto x of ProtoRef q \<Rightarrow> on_chain n s q a | _ \<Rightarrow> False)
                | None \<Rightarrow> False))"

text \<open>
  The assignment \<open>target[key] = val\<close> in strict code: an own data property is
  overwritten, a setter found on the object or its chain is called, an accessor without
  setter raises, otherwise an own data property is created, which a non-extensible
  object refuses by raising. \<open>__proto__\<close>, found on \<open>Object.prototype\<close>, sets the prototype.
\<close>

definition assign :: "nat \<Rightarrow> nat \<Rightarrow> key \<Rightarrow> val \<Rightarrow> state \<Rightarrow> state result" where
  "assign n a k v s =
     (case obj_at s a of
        None \<Rightarrow> Raised TypeError
      | Some x \<Rightarrow>
          (case (kind x, k) of
             (KArray, Idx i) \<Rightarrow>
               if frozen x \<or> (\<not> extensible x \<and> length (elems x) \<le> i) then Raised TypeError
               else Done (upd_obj a (\<lambda>x. x\<lparr>elems :=
                      (elems x @ replicate (Suc i - length (elems x)) Undefined)[i := v]\<rparr>) s)
           | _ \<Rightarrow>
               if kind x = KArray \<and> k = Name ''length'' \<and> map_of (props x) k = None then
                 (case v of
                    Number (Num l) \<Rightarrow> if 0 \<le> l then set_length a (nat l) s else Raised RangeError
                  | _ \<Rightarrow> Raised RangeError)
               else
                 (case find_prop (length (heap s)) s a k of
                    Some (w, p) \<Rightarrow>
                      (case p_slot p of
                         Accessor g (Some st) \<Rightarrow> call_setter n st v s
                       | Accessor g None \<Rightarrow> Raised TypeError
                       | Data u \<Rightarrow>
                           if w = Some a then
                             (if frozen x then Raised TypeError
                              else Done (upd_obj a (\<lambda>x. x\<lparr>props :=
                                     put_prop k (p\<lparr>p_slot := Data v\<rparr>) (props x)\<rparr>) s))
                           else if w = None \<and> k = Name ''__proto__'' then
                             (case v of
                                Ref q \<Rightarrow>
                                  if \<not> extensible x \<or> on_chain (length (heap s)) s q a
                                  then Raised TypeError
                                  else Done (upd_obj a (\<lambda>x. x\<lparr>proto := ProtoRef q\<rparr>) s)
                              | Null \<Rightarrow>
                                  if \<not> extensible x then Raised TypeError
                                  else Done (upd_obj a (\<lambda>x. x\<lparr>proto := ProtoNull\<rparr>) s)
                              | _ \<Rightarrow> Done s)
                           else if \<not> extensible x then Raised TypeError
                           else Done (upd_obj a (\<lambda>x. x\<lparr>props := put_prop k
                                  \<lparr>p_slot = Data v, enumerable = True, configurable = True\<rparr>
                                  (props x)\<rparr>) s))
                  | None \<Rightarrow>
                      if \<not> extensible x then Raised TypeError
                      else Done (upd_obj a (\<lambda>x. x\<lparr>props := put_prop k
                             \<lparr>p_slot = Data v, enumerable = True, configurable = True\<rparr>
                             (props x)\<rparr>) s))))"

subsection \<open>The intercepted array methods (array.js) and set (index.js)\<close>

text \<open>
  A call of one of the seven methods, with its arguments as the native method reads them:
  \<open>splice\<close> takes the start, the delete count when given, and the items to insert;
  \<open>sort\<close> takes the order its comparator decides.
\<close>

datatype call =
    Push "val list" | Pop | Shift | Unshift "val list"
  | Splice int "int option" "val list" | Sort "val \<Rightarrow> val \<Rightarrow> bool" | Reverse

fun insert_by :: "('a \<Rightarrow> 'a \<Rightarrow> bool) \<Rightarrow> 'a \<Rightarrow> 'a list \<Rightarrow> 'a list" where
  "insert_by le x [] = [x]"
| "insert_by le x (y # ys) = (if le x y then x # y # ys else y # insert_by le x ys)"

definition sort_by :: "('a \<Rightarrow> 'a \<Rightarrow> bool) \<Rightarrow> 'a list \<Rightarrow> 'a list" where
  "sort_by le xs = foldr (insert_by le) xs []"

definition new_array :: "val list \<Rightarrow> obj" where
  "new_array vs = \<lparr>kind = KArray, elems = vs, props = [], ob = None, proto = ProtoArray,
     own_mutators = False, extensible = True, frozen = False, isVue = False\<rparr>"

text \<open>
  \<open>original.apply(this, args)\<close>: the native method of \<open>Array.prototype\<close> on the array at
  \<open>a\<close>. A frozen array refuses every change and a non-extensible one refuses to grow,
  by raising. \<open>splice\<close> returns a new array of the removed elements.
\<close>

definition splice_start :: "int \<Rightarrow> nat \<Rightarrow> nat" where
  "splice_start start len = (if start < 0 then nat (max (int len + start) 0) else min (nat start) len)"

definition splice_count :: "int option \<Rightarrow> nat \<Rightarrow> nat \<Rightarrow> nat" where
  "splice_count dc len rs = (case dc of None \<Rightarrow> len - rs | Some d \<Rightarrow> min (nat (max d 0)) (len - rs))"

definition original :: "call \<Rightarrow> nat \<Rightarrow> state \<Rightarrow> (val \<times> state) result" where
  "original c a s =
     (case obj_at s a of
        None \<Rightarrow> Raised TypeError
      | Some x \<Rightarrow>
          if kind x \<noteq> KArray \<or> frozen x then Raised TypeError
          else
            (let es = elems x; len = length es in
             case c of
               Push items \<Rightarrow>
                 if \<not> extensible x \<and> items \<noteq> [] then Raised TypeError
                 else Done (Number (Num (int (len + length items))),
                            upd_obj a (\<lambda>x. x\<lparr>elems := es @ items\<rparr>) s)
             | Pop \<Rightarrow>
                 if es = [] then Done (Undefined, s)
                 else Done (last es, upd_obj a (\<lambda>x. x\<lparr>elems := butlast es\<rparr>) s)
             | Shift \<Rightarrow>
                 if es = [] then Done (Undefined, s)
                 else Done (hd es, upd_obj a (\<lambda>x. x\<lparr>elems := tl es\<rparr>) s)
             | Unshift items \<Rightarrow>
                 if \<not> extensible x \<and> items \<noteq> [] then Raised TypeError
                 else Done (Number (Num (int (len + length items))),
                            upd_obj a (\<lambda>x. x\<lparr>elems := items @ es\<rparr>) s)
             | Splice start dc items \<Rightarrow>
                 (let rs = splice_start start len;
                      del = splice_count dc len rs
                  in if \<not> extensible x \<and> del < length items then Raised TypeError
                     else
                       (let s1 = upd_obj a (\<lambda>x. x\<lparr>elems := take rs es @ items @ drop (rs + del) es\<rparr>) s
                        in Done (Ref (length (heap s1)),
                                 s1\<lparr>heap := heap s1 @ [new_array (take del (drop rs es))]\<rparr>)))
             | Sort le \<Rightarrow> Done (Ref a, upd_obj a (\<lambda>x. x\<lparr>elems := sort_by le es\<rparr>) s)
             | Reverse \<Rightarrow> Done (Ref a, upd_obj a (\<lambda>x. x\<lparr>elems := rev es\<rparr>) s)))"

text \<open>
  \<open>mutator(...args)\<close>: the native result first, then \<open>ob = this.__ob__\<close>, the inserted
  elements (\<open>args\<close> of push and unshift, \<open>args.slice(2)\<close> of splice) observed, and
  \<open>ob.dep.notify()\<close>. Without an \<open>__ob__\<close> the reads \<open>ob.observeArray\<close> and \<open>ob.dep\<close> raise.
\<close>

fun inserted :: "call \<Rightarrow> val list option" where
  "inserted (Push items) = Some items"
| "inserted (Unshift items) = Some items"
| "inserted (Splice start dc items) = Some items"
| "inserted c = None"

definition mutator :: "nat \<Rightarrow> call \<Rightarrow> nat \<Rightarrow> state \<Rightarrow> (val \<times> state) result" where
  "mutator n c a s =
     bindR (original c a s)
       (\<lambda>(result, s1).
          case get_ob s1 (Ref a) of
            None \<Rightarrow> Raised TypeError
          | Some k \<Rightarrow>
              bindR (case inserted c of
                       Some items \<Rightarrow> observeArray n items s1
                     | None \<Rightarrow> Done s1)
                (\<lambda>s2. Done (result, ob_notify k s2)))"

text \<open>
  The method call \<open>target.splice(...)\<close> (or push, pop, ...): the method found is the
  mutator when the seven were defined on the array itself or its prototype is
  \<open>arrayMethods\<close>, the native one when the chain reaches \<open>Array.prototype\<close> first, and
  no function otherwise.
\<close>

fun intercepted :: "nat \<Rightarrow> state \<Rightarrow> nat \<Rightarrow> bool option" where
  "intercepted 0 s a = None"
| "intercepted (Suc n) s a =
     (case obj_at s a of
        None \<Rightarrow> None
      | Some x \<Rightarrow>
          if own_mutators x then Some True
          else (case proto x of
                  ProtoArrayMethods \<Rightarrow> Some True
                | ProtoArray \<Rightarrow> Some False
                | ProtoRef p \<Rightarrow> intercepted n s p
                | _ \<Rightarrow> None))"

definition call_method :: "nat \<Rightarrow> call \<Rightarrow> nat \<Rightarrow> state \<Rightarrow> (val \<times> state) result" where
  "call_method n c a s =
     (case intercepted (length (heap s)) s a of
        Some True \<Rightarrow> mutator n c a s
      | Some False \<Rightarrow> original c a s
      | None \<Rightarrow> Raised TypeError)"

text \<open>
  Modelled from the spec: \<open>isValidArrayIndex\<close>, \<open>isUndef\<close> and \<open>isPrimitive\<close> live in util,
  which is not among the sources. The spec has "a valid, non-negative integer index";
  with keys told apart as indices and names, that is an \<open>Idx\<close>.
\<close>

fun isValidArrayIndex :: "key \<Rightarrow> bool" where
  "isValidArrayIndex (Idx i) = True"
| "isValidArrayIndex (Name n) = False"

fun isUndef :: "val \<Rightarrow> bool" where
  "isUndef Undefined = True"
| "isUndef Null = True"
| "isUndef v = False"

fun isPrimitive :: "val \<Rightarrow> bool" where
  "isPrimitive (Str s) = True"
| "isPrimitive (Number x) = True"
| "isPrimitive (Bool b) = True"
| "isPrimitive v = False"

definition root_warning :: string where
  "root_warning =
     ''Avoid adding reactive properties to a Vue instance or its root $data '' @
     ''at runtime - declare it upfront in the data option.''"

text \<open>
  \<open>set(target, key, val)\<close>. The branch is chosen by the conditions of the source in
  their order; \<open>key in target\<close> raises on a target that is no object.
\<close>

datatype branch = NoObject | ArrayIndex | ExistingKey | RootGuard | PlainAssign | NewReactive

definition set_branch :: "state \<Rightarrow> val \<Rightarrow> key \<Rightarrow> branch" where
  "set_branch s target key =
     (case target of
        Ref a \<Rightarrow>
          (case obj_at s a of
             None \<Rightarrow> NoObject
           | Some x \<Rightarrow>
               if kind x = KArray \<and> isValidArrayIndex key then ArrayIndex
               else if key_in s key a \<and> \<not> in_Object_prototype key then ExistingKey
               else
                 (let obs = get_ob s target in
                  if isVue x \<or> (case obs of
                                   Some k \<Rightarrow> (case observer_at s k of
                                                Some b \<Rightarrow> vmCount b \<noteq> 0 | None \<Rightarrow> False)
                                 | None \<Rightarrow> False)
                  then RootGuard
                  else if obs = None then PlainAssign
                  else NewReactive))
      | _ \<Rightarrow> NoObject)"

definition set' :: "nat \<Rightarrow> val \<Rightarrow> key \<Rightarrow> val \<Rightarrow> state \<Rightarrow> (val \<times> state) result" where
  "set' n target key val s =
     (let s0 = (if \<not> production s \<and> (isUndef target \<or> isPrimitive target)
                then warn ''Cannot set reactive property on undefined, null, or primitive value'' s
                else s)
      in case (set_branch s0 target key, target, key) of
           (ArrayIndex, Ref a, Idx i) \<Rightarrow>
             bindR (set_length a (max (case obj_at s0 a of Some x \<Rightarrow> length (elems x) | None \<Rightarrow> 0) i) s0)
               (\<lambda>s1. bindR (call_method n (Splice (int i) (Some 1) [val]) a s1)
                  (\<lambda>(r, s2). Done (val, s2)))
         | (ExistingKey, Ref a, k) \<Rightarrow>
             bindR (assign n a key val s0) (\<lambda>s1. Done (val, s1))
         | (RootGuard, Ref a, k) \<Rightarrow>
             Done (val,
               if \<not> production s0
               then warn root_warning s0
               else s0)
         | (PlainAssign, Ref a, k) \<Rightarrow>
             bindR (assign n a key val s0) (\<lambda>s1. Done (val, s1))
         | (NewReactive, Ref a, k) \<Rightarrow>
             (case get_ob s0 target of
                None \<Rightarrow> Raised TypeError
              | Some k \<Rightarrow>
                  (case observer_at s0 k of
                     None \<Rightarrow> Raised TypeError
                   | Some b \<Rightarrow>
                       bindR (defineReactive n (ob_value b) key (Some val) False False s0)
                         (\<lambda>s1. Done (val, ob_notify k s1))))
         | _ \<Rightarrow> Raised TypeError)"

subsection \<open>Deep traversal (traverse.js)\<close>

text \<open>
  \<open>_traverse(val, seen)\<close>, with \<open>seen\<close> the module's \<open>seenObjects\<close>. Both loops run from
  the last index down; an element of an array is read directly, a property of an object
  through \<open>val[keys[i]]\<close>, which calls its getter. Fuel is spent on each nested call.
\<close>

definition seen_add :: "nat \<Rightarrow> state \<Rightarrow> state" where
  "seen_add d s = s\<lparr>seenObjects := seenObjects s @ [d]\<rparr>"

fun traverse_aux :: "nat \<Rightarrow> val \<Rightarrow> state \<Rightarrow> state result" where
  "traverse_aux n v s =
     (case v of
        Ref a \<Rightarrow>
          (case obj_at s a of
             None \<Rightarrow> Done s
           | Some x \<Rightarrow>
               if frozen x \<or> kind x = KVNode then Done s
               else
                 (let depId = (case get_ob s v of
                                 Some k \<Rightarrow> (case observer_at s k of
                                              Some b \<Rightarrow> Some (ob_dep b) | None \<Rightarrow> None)
                               | None \<Rightarrow> None)
                  in if (case depId of Some d \<Rightarrow> d \<in> set (seenObjects s) | None \<Rightarrow> False)
                     then Done s
                     else
                       (let s1 = (case depId of Some d \<Rightarrow> seen_add d s | None \<Rightarrow> s)
                        in if kind x = KArray
                           then foldR (\<lambda>e s.
                                   case n of 0 \<Rightarrow> OutOfFuel | Suc m \<Rightarrow> traverse_aux m e s)
                                  (rev (elems x)) s1
                           else foldR (\<lambda>key s.
                                   bindR (get_prop n s a key)
                                     (\<lambda>(e, s').
                                        case n of 0 \<Rightarrow> OutOfFuel | Suc m \<Rightarrow> traverse_aux m e s'))
                                  (rev (object_keys x)) s1)))
      | _ \<Rightarrow> Done s)"

definition traverse :: "nat \<Rightarrow> val \<Rightarrow> state \<Rightarrow> state result" where
  "traverse n v s = bindR (traverse_aux n v s) (\<lambda>s'. Done (s'\<lparr>seenObjects := []\<rparr>))"

section \<open>Relations between states\<close>

text \<open>
  What the read of a property can change: it adds to the subscriptions \<open>regs\<close> and does
  nothing else.
\<close>

definition only_regs :: "state \<Rightarrow> state \<Rightarrow> bool" where
  "only_regs s t \<longleftrightarrow>
     heap t = heap s \<and> bindings t = bindings s \<and> cells t = cells s
     \<and> observers t = observers s \<and> uid t = uid s \<and> Dep_target t = Dep_target s
     \<and> shouldObserve t = shouldObserve s \<and> seenObjects t = seenObjects s
     \<and> serverRendering t = serverRendering s \<and> production t = production s
     \<and> hasProto t = hasProto s \<and> notified t = notified s \<and> warnings t = warnings s
     \<and> set (regs s) \<subseteq> set (regs t)"


text \<open>
  What a native array method leaves alone: it changes the elements of its array and may
  add objects at the end of the heap (the array \<open>splice\<close> returns); every other object and
  all the rest of the state stay.
\<close>

definition arr_rel :: "nat \<Rightarrow> state \<Rightarrow> state \<Rightarrow> bool" where
  "arr_rel a s t \<longleftrightarrow>
     length (heap s) \<le> length (heap t)
     \<and> (\<forall>c<length (heap s).
            kind (heap t ! c) = kind (heap s ! c) \<and> props (heap t ! c) = props (heap s ! c)
            \<and> ob (heap t ! c) = ob (heap s ! c) \<and> proto (heap t ! c) = proto (heap s ! c)
            \<and> own_mutators (heap t ! c) = own_mutators (heap s ! c)
            \<and> extensible (heap t ! c) = extensible (heap s ! c)
            \<and> frozen (heap t ! c) = frozen (heap s ! c) \<and> isVue (heap t ! c) = isVue (heap s ! c)
            \<and> (c \<noteq> a \<longrightarrow> elems (heap t ! c) = elems (heap s ! c)))
     \<and> bindings t = bindings s \<and> cells t = cells s \<and> observers t = observers s
     \<and> uid t = uid s \<and> regs t = regs s \<and> Dep_target t = Dep_target s
     \<and> shouldObserve t = shouldObserve s \<and> seenObjects t = seenObjects s
     \<and> serverRendering t = serverRendering s \<and> production t = production s
     \<and> hasProto t = hasProto s \<and> notified t = notified s \<and> warnings t = warnings s"

section \<open>Concrete states\<close>

definition data_prop :: "val \<Rightarrow> property" where
  "data_prop v = \<lparr>p_slot = Data v, enumerable = True, configurable = True\<rparr>"

definition plain_obj :: "(key \<times> property) list \<Rightarrow> obj" where
  "plain_obj ps = \<lparr>kind = KPlain, elems = [], props = ps, ob = None, proto = ProtoObject,
     own_mutators = False, extensible = True, frozen = False, isVue = False\<rparr>"

definition init_state :: "obj list \<Rightarrow> state" where
  "init_state h = \<lparr>heap = h, bindings = [], cells = [], observers = [], uid = 0, regs = [],
     Dep_target = None, shouldObserve = True, seenObjects = [], serverRendering = False,
     production = False, hasProto = True, notified = [], warnings = []\<rparr>"

definition reactive_prop :: "nat \<Rightarrow> property" where
  "reactive_prop b = \<lparr>p_slot = Accessor (Some (ReactiveGetter b)) (Some (ReactiveSetter b)),
     enumerable = True, configurable = True\<rparr>"

definition plain_binding :: "nat \<Rightarrow> nat \<Rightarrow> val \<Rightarrow> nat option \<Rightarrow> binding" where
  "plain_binding a d v child = \<lparr>b_obj = a, b_dep = d, b_val = v, b_getter = None,
     b_setter = None, b_childOb = child, b_shallow = False, b_customSetter = False\<rparr>"


definition ex_self_obs :: state where
  "ex_self_obs =
     (init_state [(plain_obj [(Name ''self'', reactive_prop 0)])\<lparr>ob := Some 0\<rparr>])
       \<lparr>bindings := [plain_binding 0 1 (Ref 0) (Some 0)],
        observers := [\<lparr>ob_value = 0, ob_dep = 0, vmCount = 0\<rparr>], uid := 2\<rparr>"

text \<open>\<open>{x: NaN}\<close> observed, with subscriber 7 on the Dependency Set of \<open>x\<close>.\<close>

definition ex_nan_obs :: state where
  "ex_nan_obs =
     (init_state [(plain_obj [(Name ''x'', reactive_prop 0)])\<lparr>ob := Some 0\<rparr>])
       \<lparr>bindings := [plain_binding 0 1 (Number NaN) None],
        observers := [\<lparr>ob_value = 0, ob_dep = 0, vmCount = 0\<rparr>], uid := 2, regs := [(1, 7)]\<rparr>"




text \<open>
  Root data: \<open>{a: 1}\<close> after \<open>observe(data, true)\<close>, with subscriber 7 on the Observer's
  Dependency Set; the same in a production build; and an array \<open>[1, 2]\<close> after
  \<open>observe(array, true)\<close>.
\<close>

definition ex_root :: state where
  "ex_root =
     (init_state [(plain_obj [(Name ''a'', reactive_prop 0)])\<lparr>ob := Some 0\<rparr>])
       \<lparr>bindings := [plain_binding 0 1 (Number (Num 1)) None],
        observers := [\<lparr>ob_value = 0, ob_dep = 0, vmCount = 1\<rparr>], uid := 2, regs := [(0, 7)]\<rparr>"

definition ex_root_production :: state where
  "ex_root_production = ex_root\<lparr>production := True\<rparr>"

definition ex_root_array :: state where
  "ex_root_array =
     (init_state [(new_array [Number (Num 1), Number (Num 2)])
                    \<lparr>ob := Some 0, proto := ProtoArrayMethods\<rparr>])
       \<lparr>observers := [\<lparr>ob_value = 0, ob_dep = 0, vmCount = 1\<rparr>], uid := 1, regs := [(0, 7)]\<rparr>"

text \<open>The root array after \<open>set(array, 5, "x")\<close>.\<close>

definition ex_root_array_set :: state where
  "ex_root_array_set =
     (init_state [(new_array [Number (Num 1), Number (Num 2), Undefined, Undefined, Undefined,
                              Str ''x''])
                    \<lparr>ob := Some 0, proto := ProtoArrayMethods\<rparr>,
                  new_array []])
       \<lparr>observers := [\<lparr>ob_value = 0, ob_dep = 0, vmCount = 1\<rparr>], uid := 1, regs := [(0, 7)],
        notified := [(0, [7])]\<rparr>"

text \<open>
  \<open>a = []; a.push(a); data = {arr: a}\<close> after \<open>observe(data)\<close>, while subscriber 9 is the
  active one; \<open>cyc r q\<close> is that state with subscriptions \<open>r\<close> and visited set \<open>q\<close>.
\<close>

definition ex_cyc_heap :: "obj list" where
  "ex_cyc_heap = [plain_obj [(Name ''arr'', data_prop (Ref 1))], new_array [Ref 1]]"

definition ex_cyc :: state where
  "ex_cyc =
     (init_state [(plain_obj [(Name ''arr'', reactive_prop 0)])\<lparr>ob := Some 0\<rparr>,
                  (new_array [Ref 1])\<lparr>ob := Some 1, proto := ProtoArrayMethods\<rparr>])
       \<lparr>bindings := [plain_binding 0 1 (Ref 1) (Some 1)],
        observers := [\<lparr>ob_value = 0, ob_dep = 0, vmCount = 0\<rparr>,
                      \<lparr>ob_value = 1, ob_dep = 2, vmCount = 0\<rparr>],
        uid := 3\<rparr>"

definition cyc :: "(nat \<times> nat) list \<Rightarrow> nat list \<Rightarrow> state" where
  "cyc r q = ex_cyc\<lparr>regs := r, Dep_target := Some 9, seenObjects := q\<rparr>"






section \<open>Properties of the update scheduler\<close>

lemma nextTick_fields:
  "callbacks (nextTick c s) = callbacks s @ [wrapper_of s c]"
  "pending (nextTick c s) = True"
  "has_Promise (nextTick c s) = has_Promise s"
  "timerFunc_calls (nextTick c s) = timerFunc_calls s + (if pending s then 0 else 1)"
  "invoked (nextTick c s) = invoked s"
  "handled (nextTick c s) = handled s"
  "resolved (nextTick c s) = resolved s"
  by (simp_all add: nextTick_def timerFunc_def wrapper_of_def Let_def)

lemma fold_nextTick_fields:
  "callbacks (fold nextTick cs s) = callbacks s @ map (wrapper_of s) cs"
  "pending (fold nextTick cs s) = (pending s \<or> cs \<noteq> [])"
  "has_Promise (fold nextTick cs s) = has_Promise s"
  "timerFunc_calls (fold nextTick cs s) = timerFunc_calls s + (if pending s \<or> cs = [] then 0 else 1)"
  "invoked (fold nextTick cs s) = invoked s"
  "handled (fold nextTick cs s) = handled s"
  "resolved (fold nextTick cs s) = resolved s"
  by (induction cs arbitrary: s; simp add: nextTick_fields wrapper_of_def; fail)+

lemma run_body_eq:
  "run_body b s = (fold nextTick (enqueued_by b) s, thrown_by b)"
  by (induction b s rule: run_body.induct) simp_all

lemma call_wrapper_fields:
  "snd (call_wrapper w s) = None"
  "callbacks (fst (call_wrapper w s)) = callbacks s @ map (wrapper_of s) (wrapper_enqueues w)"
  "pending (fst (call_wrapper w s)) = (pending s \<or> wrapper_enqueues w \<noteq> [])"
  "has_Promise (fst (call_wrapper w s)) = has_Promise s"
  "timerFunc_calls (fst (call_wrapper w s)) =
     timerFunc_calls s + (if pending s \<or> wrapper_enqueues w = [] then 0 else 1)"
  "invoked (fst (call_wrapper w s)) = invoked s @ wrapper_name w"
  "handled (fst (call_wrapper w s)) = handled s @ map (\<lambda>e. (e, ''nextTick'')) (wrapper_throws w)"
  by (cases "(w, s)" rule: call_wrapper.cases;
      simp add: call_cb_def run_body_eq fold_nextTick_fields handleError_def wrapper_of_def
           split: option.splits; fail)+

lemma run_copies_step:
  "run_copies (w # ws) s = run_copies ws (fst (call_wrapper w s))"
  using call_wrapper_fields(1) [of w s] by (cases "call_wrapper w s") simp

lemma run_copies_fields:
  "snd (run_copies ws s) = None"
  "callbacks (fst (run_copies ws s)) = callbacks s @ map (wrapper_of s) (concat (map wrapper_enqueues ws))"
  "pending (fst (run_copies ws s)) = (pending s \<or> concat (map wrapper_enqueues ws) \<noteq> [])"
  "has_Promise (fst (run_copies ws s)) = has_Promise s"
  "timerFunc_calls (fst (run_copies ws s)) =
     timerFunc_calls s + (if pending s \<or> concat (map wrapper_enqueues ws) = [] then 0 else 1)"
  "invoked (fst (run_copies ws s)) = invoked s @ concat (map wrapper_name ws)"
  "handled (fst (run_copies ws s)) =
     handled s @ map (\<lambda>e. (e, ''nextTick'')) (concat (map wrapper_throws ws))"
  by (induction ws arbitrary: s;
      simp del: run_copies.simps(2) add: run_copies_step call_wrapper_fields wrapper_of_def; fail)+

lemma flushCallbacks_fields:
  "snd (flushCallbacks s) = None"
  "callbacks (fst (flushCallbacks s)) = map (wrapper_of s) (concat (map wrapper_enqueues (callbacks s)))"
  "pending (fst (flushCallbacks s)) = (concat (map wrapper_enqueues (callbacks s)) \<noteq> [])"
  "has_Promise (fst (flushCallbacks s)) = has_Promise s"
  "timerFunc_calls (fst (flushCallbacks s)) =
     timerFunc_calls s + (if concat (map wrapper_enqueues (callbacks s)) = [] then 0 else 1)"
  "invoked (fst (flushCallbacks s)) = invoked s @ concat (map wrapper_name (callbacks s))"
  "handled (fst (flushCallbacks s)) =
     handled s @ map (\<lambda>e. (e, ''nextTick'')) (concat (map wrapper_throws (callbacks s)))"
  by (simp_all add: flushCallbacks_def run_copies_fields wrapper_of_def)

lemma names_wrapper_of:
  "concat (map wrapper_name (map (wrapper_of s) cs)) = names_of cs"
  by (induction cs rule: names_of.induct) (simp_all add: wrapper_of_def)

lemma names_of_Some: "names_of (map Some cbs) = map cb_name cbs"
  by (induction cbs) simp_all

lemma enqueues_wrapper_of_Some:
  "concat (map wrapper_enqueues (map (wrapper_of s) (map Some cbs))) =
   concat (map (\<lambda>cb. enqueued_by (cb_body cb)) cbs)"
  by (induction cbs) (simp_all add: wrapper_of_def)

lemma wrapper_of_cong: "has_Promise s' = has_Promise s \<Longrightarrow> wrapper_of s' = wrapper_of s"
  by (rule ext) (simp add: wrapper_of_def)

text \<open>
  Claim C1. Callbacks enqueued through \<open>nextTick\<close> while no flush is pending (the queue
  empty) cause exactly one call of \<open>timerFunc\<close>; the flush it schedules raises nothing
  and invokes the callbacks once each, in enqueue order. What they enqueue during that
  flush is not invoked by it: it forms the next queue, one further flush is scheduled for
  it, and that flush invokes it after the first batch.
\<close>

theorem nextTick_batch_order:
  assumes "\<not> pending s" and "callbacks s = []" and "cbs \<noteq> []"
  shows "(let s1 = fold nextTick (map Some cbs) s;
              s2 = fst (flushCallbacks s1);
              ds = concat (map (\<lambda>cb. enqueued_by (cb_body cb)) cbs);
              s3 = fst (flushCallbacks s2)
          in timerFunc_calls s1 = timerFunc_calls s + 1
           \<and> pending s1
           \<and> snd (flushCallbacks s1) = None
           \<and> invoked s2 = invoked s @ map cb_name cbs
           \<and> callbacks s2 = map (wrapper_of s) ds
           \<and> pending s2 = (ds \<noteq> [])
           \<and> timerFunc_calls s2 = timerFunc_calls s + 1 + (if ds = [] then 0 else 1)
           \<and> snd (flushCallbacks s2) = None
           \<and> invoked s3 = invoked s @ map cb_name cbs @ names_of ds)"
proof -
  define s1 where "s1 = fold nextTick (map Some cbs) s"
  define s2 where "s2 = fst (flushCallbacks s1)"
  define ds where "ds = concat (map (\<lambda>cb. enqueued_by (cb_body cb)) cbs)"
  define s3 where "s3 = fst (flushCallbacks s2)"
  have c1: "callbacks s1 = map (wrapper_of s) (map Some cbs)"
    unfolding s1_def using assms(2) by (simp only: fold_nextTick_fields append_Nil)
  have t1: "timerFunc_calls s1 = timerFunc_calls s + 1" and p1: "pending s1"
    unfolding s1_def using assms by (simp_all add: fold_nextTick_fields)
  have i1: "invoked s1 = invoked s" and h1: "has_Promise s1 = has_Promise s"
    unfolding s1_def by (simp_all only: fold_nextTick_fields)
  have e1: "concat (map wrapper_enqueues (callbacks s1)) = ds"
    unfolding c1 ds_def by (rule enqueues_wrapper_of_Some)
  have n1: "concat (map wrapper_name (callbacks s1)) = map cb_name cbs"
    unfolding c1 by (simp only: names_wrapper_of names_of_Some)
  have c2: "callbacks s2 = map (wrapper_of s) ds"
    unfolding s2_def by (simp only: flushCallbacks_fields e1 wrapper_of_cong [OF h1])
  have p2: "pending s2 = (ds \<noteq> [])"
    unfolding s2_def by (simp only: flushCallbacks_fields e1)
  have t2: "timerFunc_calls s2 = timerFunc_calls s + 1 + (if ds = [] then 0 else 1)"
    unfolding s2_def by (simp only: flushCallbacks_fields e1 t1)
  have i2: "invoked s2 = invoked s @ map cb_name cbs"
    unfolding s2_def by (simp only: flushCallbacks_fields n1 i1)
  have i3: "invoked s3 = invoked s @ map cb_name cbs @ names_of ds"
    unfolding s3_def by (simp only: flushCallbacks_fields c2 names_wrapper_of i2 append_assoc)
  have "timerFunc_calls s1 = timerFunc_calls s + 1
           \<and> pending s1
           \<and> snd (flushCallbacks s1) = None
           \<and> invoked s2 = invoked s @ map cb_name cbs
           \<and> callbacks s2 = map (wrapper_of s) ds
           \<and> pending s2 = (ds \<noteq> [])
           \<and> timerFunc_calls s2 = timerFunc_calls s + 1 + (if ds = [] then 0 else 1)
           \<and> snd (flushCallbacks s2) = None
           \<and> invoked s3 = invoked s @ map cb_name cbs @ names_of ds"
    using t1 p1 i2 c2 p2 t2 i3 flushCallbacks_fields(1) by simp
  then show ?thesis
    unfolding s1_def s2_def ds_def s3_def Let_def .
qed

theorem nextTick_batch_order_witness:
  "\<not> pending sched0 \<and> callbacks sched0 = [] \<and> [cbA, cbB, cbC] \<noteq> []
   \<and> timerFunc_calls (fold nextTick (map Some [cbA, cbB, cbC]) sched0) = 1
   \<and> invoked (fst (flushCallbacks (fold nextTick (map Some [cbA, cbB, cbC]) sched0))) = [1, 2, 3]
   \<and> callbacks (fst (flushCallbacks (fold nextTick (map Some [cbA, cbB, cbC]) sched0)))
        = [Wrapper (Some cbD) False]
   \<and> invoked (fst (flushCallbacks (fst (flushCallbacks
         (fold nextTick (map Some [cbA, cbB, cbC]) sched0))))) = [1, 2, 3, 4]"
  using nextTick_batch_order [of sched0 "[cbA, cbB, cbC]"]
  by (simp add: sched0_def Let_def cbA_def cbB_def cbC_def cbD_def wrapper_of_def)

text \<open>
  Claim C8. Whatever the queued callbacks throw, \<open>flushCallbacks\<close> finishes without an
  exception: every callback of the copied queue is invoked, in order, and every thrown
  error is handed to \<open>handleError\<close> with the phase \<open>nextTick\<close>.
\<close>

theorem flush_isolates_faults:
  "snd (flushCallbacks s) = None
   \<and> invoked (fst (flushCallbacks s)) = invoked s @ concat (map wrapper_name (callbacks s))
   \<and> handled (fst (flushCallbacks s)) =
       handled s @ map (\<lambda>e. (e, ''nextTick'')) (concat (map wrapper_throws (callbacks s)))"
  by (simp only: flushCallbacks_fields simp_thms)

theorem flush_isolates_faults_witness:
  "snd (flushCallbacks (fold nextTick (map Some [cbA, cbB, cbC]) sched0)) = None
   \<and> invoked (fst (flushCallbacks (fold nextTick (map Some [cbA, cbB, cbC]) sched0))) = [1, 2, 3]
   \<and> handled (fst (flushCallbacks (fold nextTick (map Some [cbA, cbB, cbC]) sched0)))
        = [(''boom'', ''nextTick'')]"
  using flush_isolates_faults [of "fold nextTick (map Some [cbA, cbB, cbC]) sched0"]
  by (simp add: sched0_def cbA_def cbB_def cbC_def cbD_def nextTick_def timerFunc_def)

section \<open>What reading a property changes\<close>

declare dependArray.simps [simp del]
declare reactiveGetter.simps [simp del]
declare reactiveSetter.simps [simp del]
declare traverse_aux.simps [simp del]
declare observe.simps [simp del] new_Observer.simps [simp del] observeArray.simps [simp del]
  walk.simps [simp del] defineReactive.simps [simp del]

lemma foldR_inv:
  assumes "foldR f xs s = Done s'" and "P s"
    and "\<And>x t t'. x \<in> set xs \<Longrightarrow> P t \<Longrightarrow> f x t = Done t' \<Longrightarrow> P t'"
  shows "P s'"
  using assms
proof (induction xs arbitrary: s)
  case Nil
  then show ?case by simp
next
  case (Cons x xs)
  from Cons.prems(1) obtain t where t: "f x s = Done t" and r: "foldR f xs t = Done s'"
    by (auto split: result.splits)
  have "P t" using Cons.prems(3) [of x s t] Cons.prems(2) t by simp
  then show ?case using Cons.IH [OF r] Cons.prems(3) by (meson list.set_intros(2))
qed

lemma bindR_Done: "bindR r f = Done y \<longleftrightarrow> (\<exists>x. r = Done x \<and> f x = Done y)"
  by (cases r) (simp_all add: bindR_def)

lemma only_regs_refl: "only_regs s s"
  by (simp add: only_regs_def)

lemma only_regs_trans: "only_regs s t \<Longrightarrow> only_regs t u \<Longrightarrow> only_regs s u"
  by (auto simp: only_regs_def)

lemma only_regs_depend: "only_regs s (depend d s)"
  by (auto simp: only_regs_def depend_def split: option.splits)

lemma only_regs_ob_depend: "only_regs s (ob_depend k s)"
  by (simp add: ob_depend_def only_regs_refl only_regs_depend split: option.splits)

lemma dependArray_step:
  assumes IH: "\<And>m v s s'. n = Suc m \<Longrightarrow> dependArray m v s = Done s' \<Longrightarrow> only_regs s s'"
    and st: "(let s1 = (if truthy e then (case get_ob t e of Some k \<Rightarrow> ob_depend k t | None \<Rightarrow> t) else t)
        in if isArray s1 e
           then (case n of 0 \<Rightarrow> OutOfFuel | Suc m \<Rightarrow> dependArray m e s1)
           else Done s1) = Done t'"
  shows "only_regs t t'"
proof -
  define s1 where "s1 = (if truthy e then (case get_ob t e of Some k \<Rightarrow> ob_depend k t | None \<Rightarrow> t) else t)"
  have a: "only_regs t s1"
    unfolding s1_def by (simp add: only_regs_refl only_regs_ob_depend split: option.splits)
  have st': "(if isArray s1 e
           then (case n of 0 \<Rightarrow> OutOfFuel | Suc m \<Rightarrow> dependArray m e s1)
           else Done s1) = Done t'"
    using st unfolding s1_def [symmetric] Let_def .
  have b: "only_regs s1 t'"
  proof (cases "isArray s1 e")
    case False
    then show ?thesis using st' by (simp add: only_regs_refl)
  next
    case True
    from True st' obtain m' where n: "n = Suc m'" by (cases n) simp_all
    from True st' n have "dependArray m' e s1 = Done t'" by simp
    then show ?thesis using IH [of m' e s1 t'] n by simp
  qed
  show ?thesis using a b by (rule only_regs_trans)
qed

lemma dependArray_only_regs:
  "dependArray n v s = Done s' \<Longrightarrow> only_regs s s'"
proof (induction n arbitrary: v s s')
  case 0
  show ?case
    using 0
    apply (subst (asm) dependArray.simps)
    apply (erule foldR_inv [where P = "only_regs s"])
     apply (rule only_regs_refl)
    apply (erule only_regs_trans)
    apply (erule dependArray_step [rotated])
    apply simp
    done
next
  case (Suc n)
  show ?case
    using Suc.prems
    apply (subst (asm) dependArray.simps)
    apply (erule foldR_inv [where P = "only_regs s"])
     apply (rule only_regs_refl)
    apply (erule only_regs_trans)
    apply (erule dependArray_step [rotated])
    apply (simp add: Suc.IH)
    done
qed

lemma collect_only_regs: "collect n bd v s = Done s' \<Longrightarrow> only_regs s s'"
proof -
  assume a: "collect n bd v s = Done s'"
  have d: "only_regs s (depend (b_dep bd) s)" by (rule only_regs_depend)
  show ?thesis
  proof (cases "Dep_target s = None")
    case True
    then show ?thesis using a by (simp add: collect_def only_regs_refl)
  next
    case False
    show ?thesis
    proof (cases "b_childOb bd")
      case None
      then show ?thesis using a False d by (auto simp: collect_def Let_def)
    next
      case (Some k)
      have e: "only_regs s (ob_depend k (depend (b_dep bd) s))"
        using d only_regs_ob_depend by (rule only_regs_trans)
      show ?thesis
      proof (cases "isArray (ob_depend k (depend (b_dep bd) s)) v")
        case True
        then have "dependArray n v (ob_depend k (depend (b_dep bd) s)) = Done s'"
          using a False Some by (simp add: collect_def Let_def)
        then show ?thesis using e dependArray_only_regs by (blast intro: only_regs_trans)
      next
        case F: False
        then have "s' = ob_depend k (depend (b_dep bd) s)"
          using a False Some by (simp add: collect_def Let_def)
        then show ?thesis using e by simp
      qed
    qed
  qed
qed

lemma reactiveGetter_only_regs:
  "reactiveGetter n b s = Done (v, s') \<Longrightarrow> only_regs s s'"
proof (induction n arbitrary: b s v s')
  case 0
  then show ?case
    apply (subst (asm) reactiveGetter.simps)
    apply (auto simp: bindR_Done split: option.splits getter.splits
        dest!: collect_only_regs intro: only_regs_refl)
    done
next
  case (Suc n)
  show ?case
    using Suc.prems
    apply (subst (asm) reactiveGetter.simps)
    apply (auto simp: bindR_Done split: option.splits getter.splits
        dest!: collect_only_regs Suc.IH intro: only_regs_refl only_regs_trans)
    done
qed

lemma call_getter_only_regs:
  "call_getter n g s = Done (v, s') \<Longrightarrow> only_regs s s'"
  by (cases g) (auto simp: call_getter_def only_regs_refl dest: reactiveGetter_only_regs)

lemma same_value_eq: "same_value a b \<longleftrightarrow> a = b"
  by (auto simp: same_value_def strict_eq_def)

text \<open>
  Claim C2. Let \<open>value\<close> be what the setter of a binding reads as the current value
  (through the getter that was there before, else the closure's \<open>val\<close>). If the new
  value is strictly equal to it, or both are \<open>NaN\<close>, the setter returns right after
  that read: nothing is committed to the heap, the closures, the cells or the Observers,
  and \<open>notify()\<close> is not called. Whenever the setter does notify, the new value differs
  from the current one.
\<close>

theorem reactiveSetter_same_value:
  assumes "binding_at s b = Some bd"
    and "(case b_getter bd of Some g \<Rightarrow> call_getter n g s | None \<Rightarrow> Done (b_val bd, s))
           = Done (value, s1)"
  shows "((strict_eq newVal value \<or> (newVal = Number NaN \<and> value = Number NaN)) \<longrightarrow>
            reactiveSetter n b newVal s = Done s1)
         \<and> heap s1 = heap s \<and> bindings s1 = bindings s \<and> cells s1 = cells s
         \<and> observers s1 = observers s \<and> notified s1 = notified s
         \<and> (\<forall>s'. reactiveSetter n b newVal s = Done s' \<and> notified s' \<noteq> notified s
                \<longrightarrow> newVal \<noteq> value)"
proof -
  have r: "only_regs s s1"
  proof (cases "b_getter bd")
    case None
    then show ?thesis using assms(2) by (simp add: only_regs_refl)
  next
    case (Some g)
    then show ?thesis using assms(2) call_getter_only_regs by simp
  qed
  have eq: "reactiveSetter n b newVal s = Done s1" if "same_value newVal value"
    using that assms by (subst reactiveSetter.simps) (simp add: bindR_def)
  have a: "(strict_eq newVal value \<or> (newVal = Number NaN \<and> value = Number NaN)) \<longrightarrow>
            reactiveSetter n b newVal s = Done s1"
    using eq by (auto simp: same_value_def strict_eq_def)
  have b: "\<forall>s'. reactiveSetter n b newVal s = Done s' \<and> notified s' \<noteq> notified s
                \<longrightarrow> newVal \<noteq> value"
    using eq r by (auto simp: same_value_eq only_regs_def)
  show ?thesis using a b r by (simp add: only_regs_def)
qed

theorem reactiveSetter_same_value_witness:
  "binding_at ex_nan_obs 0 = Some (plain_binding 0 1 (Number NaN) None)
   \<and> \<not> strict_eq (Number NaN) (Number NaN)
   \<and> reactiveSetter 0 0 (Number NaN) ex_nan_obs = Done ex_nan_obs
   \<and> notified ex_nan_obs = []"
proof -
  have a: "binding_at ex_nan_obs 0 = Some (plain_binding 0 1 (Number NaN) None)"
    by (simp add: ex_nan_obs_def init_state_def binding_at_def)
  have b: "(case b_getter (plain_binding 0 1 (Number NaN) None) of
              Some g \<Rightarrow> call_getter 0 g ex_nan_obs
            | None \<Rightarrow> Done (b_val (plain_binding 0 1 (Number NaN) None), ex_nan_obs))
           = Done (Number NaN, ex_nan_obs)"
    by (simp add: plain_binding_def)
  have c: "notified ex_nan_obs = []"
    by (simp add: ex_nan_obs_def init_state_def)
  show ?thesis
    using reactiveSetter_same_value [OF a b, of "Number NaN"] a c
    by (simp add: strict_eq_def)
qed

section \<open>Invariants of observe\<close>























lemma vmCount_inc_heap [simp]: "heap (vmCount_inc k s) = heap s"
  by (simp add: vmCount_inc_def)








section \<open>Properties of set\<close>





text \<open>
  Claim C6, as amended. Let the target be an object that is a runtime instance
  (\<open>_isVue\<close>) or whose \<open>__ob__\<close> has a nonzero \<open>vmCount\<close>, and let the key be not yet
  present (\<open>key in target\<close> fails, or the key is one of \<open>Object.prototype\<close>), the case of an
  array with an index key apart. Then \<open>set\<close> returns \<open>val\<close> and changes neither heap nor
  bindings nor the log of notifications; outside a production build it adds the one
  warning, in a production build nothing.
\<close>

theorem set_root_guard:
  assumes "obj_at s a = Some x" and "\<not> (kind x = KArray \<and> isValidArrayIndex key)"
    and "\<not> (key_in s key a \<and> \<not> in_Object_prototype key)"
    and "isVue x \<or> (\<exists>k b. get_ob s (Ref a) = Some k \<and> observer_at s k = Some b \<and> vmCount b \<noteq> 0)"
  shows "set' n (Ref a) key val s = Done (val, if production s then s else warn root_warning s)
         \<and> heap (if production s then s else warn root_warning s) = heap s
         \<and> bindings (if production s then s else warn root_warning s) = bindings s
         \<and> notified (if production s then s else warn root_warning s) = notified s"
proof -
  have "set_branch s (Ref a) key = RootGuard"
    using assms by (auto simp: set_branch_def Let_def)
  then show ?thesis by (simp add: set'_def warn_def)
qed

theorem set_root_guard_witness:
  "obj_at ex_root 0 = Some (heap ex_root ! 0)
   \<and> \<not> key_in ex_root (Name ''b'') 0
   \<and> get_ob ex_root (Ref 0) = Some 0 \<and> vmCount (observers ex_root ! 0) = 1
   \<and> set' 0 (Ref 0) (Name ''b'') (Number (Num 2)) ex_root
       = Done (Number (Num 2), warn root_warning ex_root)"
proof -
  have a: "obj_at ex_root 0 = Some (heap ex_root ! 0)"
    by (simp add: ex_root_def init_state_def obj_at_def)
  have b: "\<not> (kind (heap ex_root ! 0) = KArray \<and> isValidArrayIndex (Name ''b''))"
    by simp
  have c: "\<not> key_in ex_root (Name ''b'') 0"
    by code_simp
  have g: "get_ob ex_root (Ref 0) = Some 0"
    by code_simp
  have o: "observer_at ex_root 0 = Some (observers ex_root ! 0)" "vmCount (observers ex_root ! 0) = 1"
    "\<not> production ex_root"
    by (simp_all add: ex_root_def init_state_def observer_at_def)
  have d: "isVue (heap ex_root ! 0) \<or>
       (\<exists>k b. get_ob ex_root (Ref 0) = Some k \<and> observer_at ex_root k = Some b \<and> vmCount b \<noteq> 0)"
    using g o by simp
  have c': "\<not> (key_in ex_root (Name ''b'') 0 \<and> \<not> in_Object_prototype (Name ''b''))"
    using c by simp
  show ?thesis
    using set_root_guard [OF a b c' d, of 0 "Number (Num 2)"] a c g o by simp
qed

text \<open>
  The claim as stated fails twice: on an array that was observed as root data, where an
  index beyond the length is written through \<open>splice\<close> and notified; and in a production
  build, where the guard returns without a diagnostic.
\<close>

theorem set_root_guard_counterexample:
  "vmCount (observers ex_root_array ! 0) = 1
   \<and> \<not> key_in ex_root_array (Idx 5) 0
   \<and> set' 0 (Ref 0) (Idx 5) (Str ''x'') ex_root_array = Done (Str ''x'', ex_root_array_set)
   \<and> elems (heap ex_root_array_set ! 0)
       = [Number (Num 1), Number (Num 2), Undefined, Undefined, Undefined, Str ''x'']
   \<and> notified ex_root_array_set = [(0, [7])]
   \<and> warnings ex_root_array_set = []
   \<and> set' 0 (Ref 0) (Name ''b'') (Number (Num 2)) ex_root_production
       = Done (Number (Num 2), ex_root_production)
   \<and> warnings ex_root_production = []"
  by code_simp

section \<open>Properties of the intercepted array methods\<close>

lemma obj_at_upd_obj:
  "obj_at s a = Some x \<Longrightarrow> obj_at (upd_obj a f s) a = Some (f x)"
  by (auto simp: obj_at_def upd_obj_def split: if_splits)



lemma arr_rel_trans: "arr_rel a s t \<Longrightarrow> arr_rel a t u \<Longrightarrow> arr_rel a s u"
  unfolding arr_rel_def by (intro conjI; simp)








lemma notify_fields [simp]:
  "heap (notify d s) = heap s" "observers (notify d s) = observers s"
  "regs (notify d s) = regs s" "notified (notify d s) = notified s @ [(d, subs s d)]"
  "subs (notify d s) d' = subs s d'"
  by (simp_all add: notify_def subs_def)




lemma ob_notify_heap [simp]: "heap (ob_notify k s) = heap s"
  by (simp add: ob_notify_def split: option.splits)











section \<open>Deep traversal on cyclic structures\<close>

text \<open>
  On the self-referential object \<open>a.self = a\<close> the visited set does its work: the
  traversal returns, the active subscriber is registered once with the Dependency Set of
  the property and once with that of the Observer, and the visited set is empty again.
\<close>

lemma traverse_self_reference:
  "traverse 1 (Ref 0) (ex_self_obs\<lparr>Dep_target := Some 9\<rparr>)
     = Done (ex_self_obs\<lparr>Dep_target := Some 9, regs := [(1, 9), (0, 9)]\<rparr>)"
  by code_simp

lemmas cyc_defs = cyc_def ex_cyc_def init_state_def plain_obj_def new_array_def reactive_prop_def
  plain_binding_def

lemma cyc_depend: "\<exists>r'. depend d (cyc r q) = cyc r' q"
proof (cases "(d, 9) \<in> set r")
  case True
  then have "depend d (cyc r q) = cyc r q" by (simp add: depend_def cyc_defs)
  then show ?thesis by blast
next
  case False
  then have "depend d (cyc r q) = cyc (r @ [(d, 9)]) q" by (simp add: depend_def cyc_defs)
  then show ?thesis by blast
qed

lemma cyc_ob_depend: "\<exists>r'. ob_depend k (cyc r q) = cyc r' q"
proof (cases "observer_at (cyc r q) k")
  case None
  then have "ob_depend k (cyc r q) = cyc r q" by (simp add: ob_depend_def)
  then show ?thesis by blast
next
  case (Some b)
  then show ?thesis using cyc_depend [of "ob_dep b" r q] by (simp add: ob_depend_def)
qed

lemma cyc_facts:
  "elems_of (cyc r q) (Ref 1) = [Ref 1]"
  "get_ob (cyc r q) (Ref 1) = Some 1"
  "get_ob (cyc r q) (Ref 0) = Some 0"
  "isArray (cyc r q) (Ref 1)"
  "Dep_target (cyc r q) = Some 9"
  "binding_at (cyc r q) 0 = Some (plain_binding 0 1 (Ref 1) (Some 1))"
  by (simp_all add: elems_of_def get_ob_def obj_at_def isArray_def binding_at_def cyc_defs
      numeral_2_eq_2)

lemma cyc_dependArray: "dependArray n (Ref 1) (cyc r q) = OutOfFuel"
proof (induction n arbitrary: r)
  case 0
  obtain r' where r': "ob_depend 1 (cyc r q) = cyc r' q" using cyc_ob_depend by blast
  show ?case
    by (subst dependArray.simps) (simp del: One_nat_def add: cyc_facts r')
next
  case (Suc n)
  obtain r' where r': "ob_depend 1 (cyc r q) = cyc r' q" using cyc_ob_depend by blast
  show ?case
    by (subst dependArray.simps) (simp del: One_nat_def add: cyc_facts r' Suc.IH)
qed

lemma cyc_collect:
  "collect n (plain_binding 0 1 (Ref 1) (Some 1)) (Ref 1) (cyc r q) = OutOfFuel"
proof -
  obtain r1 where r1: "depend 1 (cyc r q) = cyc r1 q" using cyc_depend by blast
  obtain r2 where r2: "ob_depend 1 (cyc r1 q) = cyc r2 q" using cyc_ob_depend by blast
  have b: "b_dep (plain_binding 0 1 (Ref 1) (Some 1)) = 1"
    "b_childOb (plain_binding 0 1 (Ref 1) (Some 1)) = Some 1"
    by (simp_all add: plain_binding_def)
  show ?thesis
    by (simp del: One_nat_def add: collect_def cyc_facts Let_def b r1 r2 cyc_dependArray)
qed

lemma cyc_reactiveGetter: "reactiveGetter n 0 (cyc r q) = OutOfFuel"
proof -
  have b: "b_getter (plain_binding 0 1 (Ref 1) (Some 1)) = None"
    "b_val (plain_binding 0 1 (Ref 1) (Some 1)) = Ref 1"
    by (simp_all add: plain_binding_def)
  show ?thesis
    by (subst reactiveGetter.simps)
       (simp del: One_nat_def add: cyc_facts b bindR_def cyc_collect)
qed

lemma cyc_get_prop: "get_prop n (cyc r q) 0 (Name ''arr'') = OutOfFuel"
proof -
  have f: "find_prop (length (heap (cyc r q))) (cyc r q) 0 (Name ''arr'')
           = Some (Some 0, reactive_prop 0)"
    by (simp add: cyc_defs obj_at_def numeral_2_eq_2)
  show ?thesis
    by (simp add: get_prop_def f reactive_prop_def call_getter_def cyc_reactiveGetter)
qed

lemma cyc_traverse_aux: "traverse_aux n (Ref 0) (cyc r []) = OutOfFuel"
proof -
  have o: "obj_at (cyc r []) 0 = Some ((plain_obj [(Name ''arr'', reactive_prop 0)])\<lparr>ob := Some 0\<rparr>)"
    by (simp add: cyc_defs obj_at_def)
  have k: "object_keys ((plain_obj [(Name ''arr'', reactive_prop 0)])\<lparr>ob := Some 0\<rparr>) = [Name ''arr'']"
    by (simp add: object_keys_def plain_obj_def reactive_prop_def)
  have d: "observer_at (cyc r []) 0 = Some \<lparr>ob_value = 0, ob_dep = 0, vmCount = 0\<rparr>"
    by (simp add: cyc_defs observer_at_def)
  have s: "seen_add 0 (cyc r []) = cyc r [0]"
    by (simp add: seen_add_def cyc_def)
  have q: "seenObjects (cyc r []) = []"
    by (simp add: cyc_def)
  have p: "frozen ((plain_obj [(Name ''arr'', reactive_prop 0)])\<lparr>ob := Some 0\<rparr>) = False"
    "kind ((plain_obj [(Name ''arr'', reactive_prop 0)])\<lparr>ob := Some 0\<rparr>) = KPlain"
    by (simp_all add: plain_obj_def)
  show ?thesis
    by (subst traverse_aux.simps)
       (simp add: o k d s q p cyc_facts cyc_get_prop bindR_def Let_def)
qed

text \<open>
  Claim C7. The claim does not hold on the code. \<open>data = {arr: a}\<close> with \<open>a = [a]\<close> is a
  cyclic structure, reached by \<open>observe\<close>, in which both containers carry an Observer.
  With an active subscriber, \<open>traverse(data)\<close> reads \<open>data.arr\<close>; the getter calls
  \<open>dependArray(a)\<close>, which enters \<open>a\<close> again for its element \<open>a\<close> without end. No amount
  of fuel lets \<open>traverse\<close> return, so the visited set is not cleared either.
\<close>

theorem traverse_cyclic_array_diverges:
  "observe 2 (Ref 0) False (init_state ex_cyc_heap) = Done (Some 0, ex_cyc)
   \<and> ob (heap (cyc [] []) ! 0) = Some 0 \<and> ob (heap (cyc [] []) ! 1) = Some 1
   \<and> (\<forall>n. traverse n (Ref 0) (cyc [] []) = OutOfFuel)"
proof -
  have a: "observe 2 (Ref 0) False (init_state ex_cyc_heap) = Done (Some 0, ex_cyc)"
    by code_simp
  have b: "ob (heap (cyc [] []) ! 0) = Some 0" "ob (heap (cyc [] []) ! 1) = Some 1"
    by (simp_all add: cyc_defs)
  have c: "\<forall>n. traverse n (Ref 0) (cyc [] []) = OutOfFuel"
    by (simp add: traverse_def cyc_traverse_aux bindR_def)
  show ?thesis using a b c by simp
qed

end
